theory Spec2Isabelle
  imports Main
begin

section \<open>The rules engine consumed by application.py\<close>

text \<open>
  application.py imports the chess library and uses nine of its operations on a
  board object. The library is a dependency, so the controller below takes it as
  a parameter: a record holding exactly the operations the source calls.

  \<^item> \<open>chess_Board\<close>: \<^verbatim>\<open>chess.Board()\<close>, the starting position;
  \<^item> \<open>board_is_game_over\<close>: \<^verbatim>\<open>board.is_game_over()\<close>;
  \<^item> \<open>board_result\<close>: \<^verbatim>\<open>board.result()\<close>, a string;
  \<^item> \<open>board_turn\<close>: \<^verbatim>\<open>board.turn\<close>, a bool with \<^verbatim>\<open>chess.WHITE == True\<close>;
  \<^item> \<open>board_fen\<close>: \<^verbatim>\<open>board.fen()\<close>;
  \<^item> \<open>move_from_uci\<close>: \<^verbatim>\<open>chess.Move.from_uci(s)\<close>, \<open>None\<close> where it raises ValueError;
  \<^item> \<open>board_legal\<close>: \<^verbatim>\<open>move in board.legal_moves\<close>;
  \<^item> \<open>board_is_capture\<close>: \<^verbatim>\<open>board.is_capture(move)\<close>;
  \<^item> \<open>board_push\<close>: \<^verbatim>\<open>board.push(move)\<close>, the board after the in-place update.
\<close>

record ('p, 'm) engine =
  chess_Board :: "'p"
  board_is_game_over :: "'p \<Rightarrow> bool"
  board_result :: "'p \<Rightarrow> string"
  board_turn :: "'p \<Rightarrow> bool"
  board_fen :: "'p \<Rightarrow> string"
  move_from_uci :: "string \<Rightarrow> 'm option"
  board_legal :: "'p \<Rightarrow> 'm \<Rightarrow> bool"
  board_is_capture :: "'p \<Rightarrow> 'm \<Rightarrow> bool"
  board_push :: "'p \<Rightarrow> 'm \<Rightarrow> 'p"

definition WHITE :: bool where
  "WHITE = True"

section \<open>The process-wide state\<close>

text \<open>
  The module keeps two globals: the dict \<^verbatim>\<open>game_state\<close> with the keys
  \<^verbatim>\<open>'board'\<close> and \<^verbatim>\<open>'moves_left'\<close>, and \<^verbatim>\<open>game_lock = threading.Lock()\<close>.
  A \<^verbatim>\<open>threading.Lock\<close> is not reentrant: acquiring it while it is held waits
  until somebody releases it, also when the holder is the caller itself.
  \<open>lock_held\<close> records whether the lock is held.
\<close>

record 'p game =
  board :: "'p"
  moves_left :: int
  lock_held :: bool

text \<open>
  \<^verbatim>\<open>with game_lock:\<close> acquires on entry and releases on exit. A call that finds
  the lock held, with nobody left to release it, never gets past the entry:
  \<open>acquire\<close> is \<open>None\<close> there.
\<close>

definition acquire :: "'p game \<Rightarrow> 'p game option" where
  "acquire s = (if lock_held s then None else Some (s\<lparr>lock_held := True\<rparr>))"

definition release :: "'p game \<Rightarrow> 'p game" where
  "release s = s\<lparr>lock_held := False\<rparr>"

section \<open>Responses\<close>

text \<open>
  A view returns either the snapshot built by \<^verbatim>\<open>get_game_state\<close> (the keys
  \<^verbatim>\<open>fen\<close>, \<^verbatim>\<open>isGameOver\<close>, \<^verbatim>\<open>statusMessage\<close>) or \<^verbatim>\<open>{"error": msg}\<close> with
  status 400. A call that never returns has the response \<open>None\<close>.
\<close>

datatype response =
  Snapshot (fen: string) (isGameOver: bool) (statusMessage: string)
| Error string

section \<open>Formatting an integer, as an f-string does\<close>

fun digits :: "nat \<Rightarrow> string" where
  "digits n = (if n < 10 then [char_of (48 + n)] else digits (n div 10) @ [char_of (48 + n mod 10)])"

declare digits.simps [simp del]

definition str_int :: "int \<Rightarrow> string" where
  "str_int i = (if i < 0 then CHR ''-'' # digits (nat (- i)) else digits (nat i))"

section \<open>The controller\<close>

text \<open>\<^verbatim>\<open>initialize_game\<close> (lines 14-21): under the lock, a fresh board and one move.\<close>

definition initialize_game :: "('p, 'm) engine \<Rightarrow> 'p game \<Rightarrow> unit option \<times> 'p game" where
  "initialize_game e s =
     (case acquire s of
        None \<Rightarrow> (None, s)
      | Some s1 \<Rightarrow>
          (Some (), release (s1\<lparr>board := chess_Board e, moves_left := 1\<rparr>)))"

text \<open>\<^verbatim>\<open>get_status_message\<close> (lines 23-35); it reads the dict and takes no lock.\<close>

definition get_status_message :: "('p, 'm) engine \<Rightarrow> 'p game \<Rightarrow> string" where
  "get_status_message e s =
     (let b = board s in
      if board_is_game_over e b then
        (let result = board_result e b in
         if result = ''1-0'' then ''Game Over: White wins!''
         else if result = ''0-1'' then ''Game Over: Black wins!''
         else if result = ''1/2-1/2'' then ''Game Over: Draw!''
         else ''Game Over! '' @ result)
      else
        (let turn = (if board_turn e b = WHITE then ''White'' else ''Black'');
             moves = moves_left s
         in turn @ '' to move ('' @ str_int moves @ '' ''
              @ (if moves = 1 then ''move'' else ''moves'') @ '' left)''))"

text \<open>\<^verbatim>\<open>get_game_state\<close> (lines 40-50): the snapshot, built under the lock.\<close>

definition get_game_state :: "('p, 'm) engine \<Rightarrow> 'p game \<Rightarrow> response option \<times> 'p game" where
  "get_game_state e s =
     (case acquire s of
        None \<Rightarrow> (None, s)
      | Some s1 \<Rightarrow>
          (Some (Snapshot (board_fen e (board s1))
                          (board_is_game_over e (board s1))
                          (get_status_message e s1)),
           release s1))"

text \<open>
  \<^verbatim>\<open>new_game\<close> (lines 52-56): \<^verbatim>\<open>initialize_game()\<close>, whose lock is released when it
  returns, then \<^verbatim>\<open>get_game_state()\<close>.
\<close>

definition new_game :: "('p, 'm) engine \<Rightarrow> 'p game \<Rightarrow> response option \<times> 'p game" where
  "new_game e s =
     (case initialize_game e s of
        (None, s1) \<Rightarrow> (None, s1)
      | (Some _, s1) \<Rightarrow> get_game_state e s1)"

text \<open>
  \<^verbatim>\<open>make_move\<close> (lines 58-100). The argument is \<^verbatim>\<open>request.json.get('move')\<close>:
  \<open>None\<close> when the key is absent, and \<^verbatim>\<open>not move_uci\<close> is also true of the empty
  string. The whole body runs inside \<^verbatim>\<open>with game_lock:\<close>, and so does line 95,
  \<^verbatim>\<open>return get_game_state()\<close>: that call starts from a state whose lock is held.
  The lock is released when control leaves the \<^verbatim>\<open>with\<close> block, so after the
  value of the \<^verbatim>\<open>return\<close> has been computed.
\<close>

definition make_move ::
  "('p, 'm) engine \<Rightarrow> string option \<Rightarrow> 'p game \<Rightarrow> response option \<times> 'p game" where
  "make_move e move_uci s =
     (case acquire s of
        None \<Rightarrow> (None, s)
      | Some s1 \<Rightarrow>
          if board_is_game_over e (board s1) then
            (Some (Error ''Game is over''), release s1)
          else
            (case move_uci of
               None \<Rightarrow> (Some (Error ''Move not provided''), release s1)
             | Some tok \<Rightarrow>
                 if tok = [] then (Some (Error ''Move not provided''), release s1)
                 else
                   (case move_from_uci e tok of
                      None \<Rightarrow> (Some (Error (''Invalid move format: '' @ tok)), release s1)
                    | Some move \<Rightarrow>
                        if board_legal e (board s1) move then
                          (let is_capture = board_is_capture e (board s1) move;
                               s2 = s1\<lparr>board := board_push e (board s1) move\<rparr>;
                               s3 = s2\<lparr>moves_left := moves_left s2 - 1\<rparr>;
                               s4 = (if moves_left s3 = 0
                                     then (if is_capture then s3\<lparr>moves_left := 2\<rparr>
                                           else s3\<lparr>moves_left := 1\<rparr>)
                                     else s3)
                           in case get_game_state e s4 of
                                (None, s5) \<Rightarrow> (None, s5)
                              | (Some r, s5) \<Rightarrow> (Some r, release s5))
                        else
                          (Some (Error (''Illegal move: '' @ tok)), release s1))))"

text \<open>
  Line 38 runs \<^verbatim>\<open>initialize_game()\<close> when the module is loaded, on the empty dict
  and the fresh, free lock; both keys are assigned there.
\<close>

definition startup :: "('p, 'm) engine \<Rightarrow> 'p game" where
  "startup e = \<lparr>board = chess_Board e, moves_left = 1, lock_held = False\<rparr>"

section \<open>Sequences of requests\<close>

datatype operation = GetState | NewGame | ApplyMove "string option"

fun perform :: "('p, 'm) engine \<Rightarrow> operation \<Rightarrow> 'p game \<Rightarrow> response option \<times> 'p game" where
  "perform e GetState s = get_game_state e s"
| "perform e NewGame s = new_game e s"
| "perform e (ApplyMove move_uci) s = make_move e move_uci s"

text \<open>Each request runs on the globals as the request before it left them.\<close>

fun run :: "('p, 'm) engine \<Rightarrow> operation list \<Rightarrow> 'p game \<Rightarrow> 'p game" where
  "run e [] s = s"
| "run e (op # ops) s = run e ops (snd (perform e op s))"

section \<open>A small rules engine\<close>

text \<open>
  A rules engine small enough to evaluate: each side has a number of men, a move
  either advances (\<^verbatim>\<open>"a"\<close>, never a capture) or takes one of the other side's
  men (\<^verbatim>\<open>"x"\<close>, a capture, legal once somebody has advanced). A side with no men
  has lost. As \<^verbatim>\<open>Board.push\<close> of the chess library does, \<open>duel_push\<close> hands the
  turn to the other side after every move.
\<close>

record duel =
  white_to_move :: bool
  white_men :: nat
  black_men :: nat
  contact :: bool

datatype duel_move = Advance | Take

definition duel_from_uci :: "string \<Rightarrow> duel_move option" where
  "duel_from_uci tok = (if tok = ''a'' then Some Advance else if tok = ''x'' then Some Take else None)"

definition duel_over :: "duel \<Rightarrow> bool" where
  "duel_over b = (white_men b = 0 \<or> black_men b = 0)"

definition duel_result :: "duel \<Rightarrow> string" where
  "duel_result b = (if black_men b = 0 then ''1-0'' else if white_men b = 0 then ''0-1'' else ''*'')"

definition duel_fen :: "duel \<Rightarrow> string" where
  "duel_fen b = digits (white_men b) @ ''/'' @ digits (black_men b) @ '' ''
                 @ (if white_to_move b then ''w'' else ''b'')"

fun duel_legal :: "duel \<Rightarrow> duel_move \<Rightarrow> bool" where
  "duel_legal b Advance = (\<not> duel_over b)"
| "duel_legal b Take = (\<not> duel_over b \<and> contact b)"

fun duel_is_capture :: "duel \<Rightarrow> duel_move \<Rightarrow> bool" where
  "duel_is_capture b Advance = False"
| "duel_is_capture b Take = True"

fun duel_push :: "duel \<Rightarrow> duel_move \<Rightarrow> duel" where
  "duel_push b Advance = b\<lparr>white_to_move := \<not> white_to_move b, contact := True\<rparr>"
| "duel_push b Take =
     (if white_to_move b
      then b\<lparr>white_to_move := False, black_men := black_men b - 1\<rparr>
      else b\<lparr>white_to_move := True, white_men := white_men b - 1\<rparr>)"

definition duel_start :: duel where
  "duel_start = \<lparr>white_to_move = True, white_men = 2, black_men = 2, contact = False\<rparr>"

definition duel_engine :: "(duel, duel_move) engine" where
  "duel_engine =
     \<lparr>chess_Board = duel_start,
      board_is_game_over = duel_over,
      board_result = duel_result,
      board_turn = white_to_move,
      board_fen = duel_fen,
      move_from_uci = duel_from_uci,
      board_legal = duel_legal,
      board_is_capture = duel_is_capture,
      board_push = duel_push\<rparr>"

text \<open>Three states of the small engine, each with the lock free.\<close>

definition duel_contact :: "duel game" where
  "duel_contact =
     \<lparr>board = \<lparr>white_to_move = True, white_men = 2, black_men = 2, contact = True\<rparr>,
      moves_left = 1, lock_held = False\<rparr>"

definition duel_bonus :: "duel game" where
  "duel_bonus =
     \<lparr>board = \<lparr>white_to_move = False, white_men = 2, black_men = 1, contact = True\<rparr>,
      moves_left = 2, lock_held = False\<rparr>"

definition duel_finished :: "duel game" where
  "duel_finished =
     \<lparr>board = \<lparr>white_to_move = False, white_men = 2, black_men = 0, contact = True\<rparr>,
      moves_left = 1, lock_held = False\<rparr>"

section \<open>The four preconditions, as the specification lists them\<close>

text \<open>
  The condition under which a move request is to be refused: the position is
  game-over, or the token is absent or empty, or it does not parse, or the
  parsed move is not legal in the position.
\<close>

definition fails_precondition :: "('p, 'm) engine \<Rightarrow> 'p \<Rightarrow> string option \<Rightarrow> bool" where
  "fails_precondition e b move_uci =
     (board_is_game_over e b \<or>
      (case move_uci of
         None \<Rightarrow> True
       | Some tok \<Rightarrow>
           tok = [] \<or>
           (case move_from_uci e tok of
              None \<Rightarrow> True
            | Some m \<Rightarrow> \<not> board_legal e b m)))"

section \<open>Properties\<close>

subsection \<open>What the lock does to each view\<close>

lemma acquire_free: "\<not> lock_held s \<Longrightarrow> acquire s = Some (s\<lparr>lock_held := True\<rparr>)"
  by (simp add: acquire_def)

lemma acquire_held: "lock_held s \<Longrightarrow> acquire s = None"
  by (simp add: acquire_def)

lemma get_game_state_held: "lock_held s \<Longrightarrow> get_game_state e s = (None, s)"
  by (simp add: get_game_state_def acquire_def)

lemma make_move_held: "lock_held s \<Longrightarrow> make_move e move_uci s = (None, s)"
  by (simp add: make_move_def acquire_def)

text \<open>
  An accepted move: the state after the four update steps, with the lock still
  held, and no response, since the nested \<^verbatim>\<open>get_game_state()\<close> waits for the lock
  its own caller holds.
\<close>

lemma make_move_legal:
  assumes "\<not> lock_held s" and "\<not> board_is_game_over e (board s)"
    and "tok \<noteq> []" and "move_from_uci e tok = Some m" and "board_legal e (board s) m"
  shows "make_move e (Some tok) s =
           (None, \<lparr>board = board_push e (board s) m,
                   moves_left = (if moves_left s - 1 = 0
                                 then (if board_is_capture e (board s) m then 2 else 1)
                                 else moves_left s - 1),
                   lock_held = True\<rparr>)"
  using assms by (cases s) (simp add: make_move_def acquire_def get_game_state_def Let_def)

text \<open>
  The update rule, for a call that finds the lock free and whose move passes the
  four checks: the capture status is that of the move on the board before the
  push, the board after is the pushed one, and moves_left is decremented, then
  re-armed to 2 (capture) or 1 (no capture) when the decrement reached 0, and
  left at the decremented value otherwise.
\<close>

lemma make_move_update_rule:
  assumes "\<not> lock_held s" and "\<not> board_is_game_over e (board s)"
    and "tok \<noteq> []" and "move_from_uci e tok = Some m" and "board_legal e (board s) m"
  shows "board (snd (make_move e (Some tok) s)) = board_push e (board s) m \<and>
         moves_left (snd (make_move e (Some tok) s)) =
           (if moves_left s - 1 = 0
            then (if board_is_capture e (board s) m then 2 else 1)
            else moves_left s - 1)"
  by (simp add: make_move_legal [OF assms])

lemma make_move_update_rule_example:
  "\<not> lock_held duel_contact \<and>
   \<not> board_is_game_over duel_engine (board duel_contact) \<and>
   ''x'' \<noteq> [] \<and>
   move_from_uci duel_engine ''x'' = Some Take \<and>
   board_legal duel_engine (board duel_contact) Take \<and>
   board_is_capture duel_engine (board duel_contact) Take \<and>
   board (snd (make_move duel_engine (Some ''x'') duel_contact)) =
     \<lparr>white_to_move = False, white_men = 2, black_men = 1, contact = True\<rparr> \<and>
   moves_left (snd (make_move duel_engine (Some ''x'') duel_contact)) = 2"
proof -
  have h1: "\<not> lock_held duel_contact"
    by (simp add: duel_contact_def)
  have h2: "\<not> board_is_game_over duel_engine (board duel_contact)"
    by (simp add: duel_contact_def duel_engine_def duel_over_def)
  have h3: "''x'' \<noteq> []"
    by simp
  have h4: "move_from_uci duel_engine ''x'' = Some Take"
    by (simp add: duel_engine_def duel_from_uci_def)
  have h5: "board_legal duel_engine (board duel_contact) Take"
    by (simp add: duel_contact_def duel_engine_def duel_over_def)
  have h6: "board_is_capture duel_engine (board duel_contact) Take"
    by (simp add: duel_engine_def)
  from make_move_update_rule [OF h1 h2 h3 h4 h5] h6
  have "board (snd (make_move duel_engine (Some ''x'') duel_contact)) =
          \<lparr>white_to_move = False, white_men = 2, black_men = 1, contact = True\<rparr> \<and>
        moves_left (snd (make_move duel_engine (Some ''x'') duel_contact)) = 2"
    by (simp add: duel_contact_def duel_engine_def)
  with h1 h2 h3 h4 h5 h6 show ?thesis
    by simp
qed

text \<open>
  C1. make_move applies a move by that rule only when it finds the lock free.
  An accepted move leaves the lock held (line 95), so the request after it is
  not applied even when its move passes all four checks on the current board:
  it gives no response, and board and moves_left stay as the first move left
  them.
\<close>

theorem second_legal_move_not_applied:
  assumes "\<not> lock_held s" and "\<not> board_is_game_over e (board s)"
    and "tok \<noteq> []" and "move_from_uci e tok = Some m" and "board_legal e (board s) m"
    and "\<not> fails_precondition e (board (snd (make_move e (Some tok) s))) (Some tok')"
  shows "make_move e (Some tok') (snd (make_move e (Some tok) s)) =
           (None, snd (make_move e (Some tok) s)) \<and>
         board (run e [ApplyMove (Some tok), ApplyMove (Some tok')] s) =
           board_push e (board s) m \<and>
         moves_left (run e [ApplyMove (Some tok), ApplyMove (Some tok')] s) =
           (if moves_left s - 1 = 0
            then (if board_is_capture e (board s) m then 2 else 1)
            else moves_left s - 1)"
proof -
  have held: "lock_held (snd (make_move e (Some tok) s))"
    by (simp add: make_move_legal [OF assms(1-5)])
  have stuck: "make_move e (Some tok') (snd (make_move e (Some tok) s)) =
                 (None, snd (make_move e (Some tok) s))"
    using held by (rule make_move_held)
  have "run e [ApplyMove (Some tok), ApplyMove (Some tok')] s = snd (make_move e (Some tok) s)"
    by (simp add: stuck)
  with stuck show ?thesis
    by (simp add: make_move_legal [OF assms(1-5)])
qed

theorem second_legal_move_not_applied_witness:
  "\<not> fails_precondition duel_engine
        (board (snd (make_move duel_engine (Some ''a'') (startup duel_engine)))) (Some ''x'') \<and>
   fst (make_move duel_engine (Some ''x'')
          (snd (make_move duel_engine (Some ''a'') (startup duel_engine)))) = None \<and>
   board (run duel_engine [ApplyMove (Some ''a''), ApplyMove (Some ''x'')]
            (startup duel_engine)) =
     \<lparr>white_to_move = False, white_men = 2, black_men = 2, contact = True\<rparr> \<and>
   board_push duel_engine
     \<lparr>white_to_move = False, white_men = 2, black_men = 2, contact = True\<rparr> Take =
     \<lparr>white_to_move = True, white_men = 1, black_men = 2, contact = True\<rparr> \<and>
   moves_left (run duel_engine [ApplyMove (Some ''a''), ApplyMove (Some ''x'')]
                 (startup duel_engine)) = 1"
proof -
  have h1: "\<not> lock_held (startup duel_engine)"
    by (simp add: startup_def)
  have h2: "\<not> board_is_game_over duel_engine (board (startup duel_engine))"
    by (simp add: startup_def duel_engine_def duel_start_def duel_over_def)
  have h3: "''a'' \<noteq> []"
    by simp
  have h4: "move_from_uci duel_engine ''a'' = Some Advance"
    by (simp add: duel_engine_def duel_from_uci_def)
  have h5: "board_legal duel_engine (board (startup duel_engine)) Advance"
    by (simp add: startup_def duel_engine_def duel_start_def duel_over_def)
  have after: "board (snd (make_move duel_engine (Some ''a'') (startup duel_engine))) =
                 \<lparr>white_to_move = False, white_men = 2, black_men = 2, contact = True\<rparr>"
    by (simp add: make_move_legal [OF h1 h2 h3 h4 h5])
       (simp add: startup_def duel_engine_def duel_start_def)
  have h6: "\<not> fails_precondition duel_engine
              (board (snd (make_move duel_engine (Some ''a'') (startup duel_engine))))
              (Some ''x'')"
    unfolding after
    by (simp add: fails_precondition_def duel_engine_def duel_over_def duel_from_uci_def)
  have pushed: "board_push duel_engine (board (startup duel_engine)) Advance =
                  \<lparr>white_to_move = False, white_men = 2, black_men = 2, contact = True\<rparr>"
    by (simp add: startup_def duel_engine_def duel_start_def)
  have rule: "board_push duel_engine
                \<lparr>white_to_move = False, white_men = 2, black_men = 2, contact = True\<rparr> Take =
                \<lparr>white_to_move = True, white_men = 1, black_men = 2, contact = True\<rparr>"
    by (simp add: duel_engine_def)
  have nocap: "\<not> board_is_capture duel_engine (board (startup duel_engine)) Advance"
    by (simp add: duel_engine_def)
  have one: "moves_left (startup duel_engine) = 1"
    by (simp add: startup_def)
  have val: "(if moves_left (startup duel_engine) - 1 = 0
              then (if board_is_capture duel_engine (board (startup duel_engine)) Advance
                    then 2 else 1)
              else moves_left (startup duel_engine) - 1) = (1::int)"
    using one nocap by simp
  note t = second_legal_move_not_applied [OF h1 h2 h3 h4 h5 h6]
  from t have r1: "fst (make_move duel_engine (Some ''x'')
          (snd (make_move duel_engine (Some ''a'') (startup duel_engine)))) = None"
    by simp
  from t have "board (run duel_engine [ApplyMove (Some ''a''), ApplyMove (Some ''x'')]
                 (startup duel_engine)) =
               board_push duel_engine (board (startup duel_engine)) Advance"
    by blast
  then have r2: "board (run duel_engine [ApplyMove (Some ''a''), ApplyMove (Some ''x'')]
                 (startup duel_engine)) =
          \<lparr>white_to_move = False, white_men = 2, black_men = 2, contact = True\<rparr>"
    by (simp only: pushed)
  from t have "moves_left (run duel_engine [ApplyMove (Some ''a''), ApplyMove (Some ''x'')]
                      (startup duel_engine)) =
               (if moves_left (startup duel_engine) - 1 = 0
                then (if board_is_capture duel_engine (board (startup duel_engine)) Advance
                      then 2 else 1)
                else moves_left (startup duel_engine) - 1)"
    by blast
  then have r3: "moves_left (run duel_engine [ApplyMove (Some ''a''), ApplyMove (Some ''x'')]
                      (startup duel_engine)) = 1"
    by (simp only: val)
  from h6 r1 r2 rule r3 show ?thesis
    by blast
qed

subsection \<open>The turn after a move\<close>




subsection \<open>The allowance stays 1 or 2\<close>

lemma get_game_state_state: "snd (get_game_state e s) = s"
  by (cases s) (simp add: get_game_state_def acquire_def release_def)

lemma get_game_state_free:
  "\<not> lock_held s \<Longrightarrow>
   get_game_state e s =
     (Some (Snapshot (board_fen e (board s)) (board_is_game_over e (board s))
              (get_status_message e s)), s)"
  by (cases s) (simp add: get_game_state_def acquire_def release_def get_status_message_def)

lemma initialize_game_held: "lock_held s \<Longrightarrow> initialize_game e s = (None, s)"
  by (simp add: initialize_game_def acquire_def)

lemma initialize_game_free:
  "\<not> lock_held s \<Longrightarrow> initialize_game e s = (Some (), startup e)"
  by (simp add: initialize_game_def acquire_def release_def startup_def)

lemma new_game_held: "lock_held s \<Longrightarrow> new_game e s = (None, s)"
  by (simp add: new_game_def initialize_game_held)

lemma new_game_free:
  "\<not> lock_held s \<Longrightarrow>
   new_game e s =
     (Some (Snapshot (board_fen e (chess_Board e)) (board_is_game_over e (chess_Board e))
              (get_status_message e (startup e))), startup e)"
proof -
  assume free: "\<not> lock_held s"
  have "\<not> lock_held (startup e)"
    by (simp add: startup_def)
  from get_game_state_free [OF this, of e] initialize_game_free [OF free, of e]
  show ?thesis
    by (simp add: new_game_def startup_def)
qed

lemma make_move_refused:
  "fails_precondition e (board s) move_uci \<Longrightarrow> snd (make_move e move_uci s) = s"
  by (cases s)
     (auto simp add: make_move_def fails_precondition_def acquire_def release_def
           split: option.splits)

lemma make_move_allowance:
  assumes "moves_left s = 1 \<or> moves_left s = 2"
  shows "moves_left (snd (make_move e move_uci s)) = 1 \<or>
         moves_left (snd (make_move e move_uci s)) = 2"
proof (cases "lock_held s \<or> fails_precondition e (board s) move_uci")
  case True
  then have "snd (make_move e move_uci s) = s"
    by (auto simp add: make_move_held make_move_refused)
  with assms show ?thesis by simp
next
  case False
  then obtain tok m where "move_uci = Some tok" "tok \<noteq> []" "move_from_uci e tok = Some m"
    "board_legal e (board s) m" "\<not> board_is_game_over e (board s)" "\<not> lock_held s"
    by (auto simp add: fails_precondition_def split: option.splits)
  with assms show ?thesis
    by (auto simp add: make_move_legal)
qed

lemma perform_allowance:
  assumes "moves_left s = 1 \<or> moves_left s = 2"
  shows "moves_left (snd (perform e op s)) = 1 \<or> moves_left (snd (perform e op s)) = 2"
proof (cases op)
  case GetState
  with assms show ?thesis by (simp add: get_game_state_state)
next
  case NewGame
  with assms show ?thesis
    by (cases "lock_held s") (simp_all add: new_game_held new_game_free startup_def)
next
  case (ApplyMove move_uci)
  with make_move_allowance [OF assms] show ?thesis by simp
qed

lemma run_allowance:
  "moves_left s = 1 \<or> moves_left s = 2 \<Longrightarrow>
   moves_left (run e ops s) = 1 \<or> moves_left (run e ops s) = 2"
proof (induction ops arbitrary: s)
  case Nil
  then show ?case by simp
next
  case (Cons op ops)
  from Cons.IH [OF perform_allowance [OF Cons.prems]] show ?case by simp
qed

text \<open>
  C3. After any sequence of GetState, NewGame and ApplyMove requests from the
  state the module starts in, if the position is not game-over then at least
  one move is left.
\<close>

theorem moves_left_positive_while_playing:
  assumes "\<not> board_is_game_over e (board (run e ops (startup e)))"
  shows "1 \<le> moves_left (run e ops (startup e))"
proof -
  have "moves_left (startup e) = 1 \<or> moves_left (startup e) = 2"
    by (simp add: startup_def)
  from run_allowance [OF this, of e ops] show ?thesis by auto
qed

theorem moves_left_positive_while_playing_witness:
  "\<not> board_is_game_over duel_engine
        (board (run duel_engine
                  [GetState, ApplyMove (Some ''zz99''), ApplyMove (Some ''a''), NewGame]
                  (startup duel_engine))) \<and>
   1 \<le> moves_left (run duel_engine
                      [GetState, ApplyMove (Some ''zz99''), ApplyMove (Some ''a''), NewGame]
                      (startup duel_engine))"
proof -
  have h: "\<not> board_is_game_over duel_engine
        (board (run duel_engine
                  [GetState, ApplyMove (Some ''zz99''), ApplyMove (Some ''a''), NewGame]
                  (startup duel_engine)))"
    by (simp add: startup_def duel_engine_def duel_start_def duel_over_def duel_from_uci_def
          get_game_state_def new_game_def initialize_game_def make_move_def
          acquire_def release_def)
  from moves_left_positive_while_playing [OF h] h show ?thesis
    by simp
qed

subsection \<open>Refused moves\<close>

lemma make_move_error_iff:
  assumes "\<not> lock_held s"
  shows "(\<exists>msg. fst (make_move e move_uci s) = Some (Error msg)) \<longleftrightarrow>
         fails_precondition e (board s) move_uci"
  using assms
  by (auto simp add: make_move_def fails_precondition_def acquire_def get_game_state_def Let_def
        split: option.splits)

text \<open>
  Once make_move holds the lock, the four checks come in a fixed order and
  the first that fails decides the response: a game-over position gives
  "Game is over" whatever the token is; otherwise an absent or empty token gives
  "Move not provided"; otherwise a token that does not parse gives
  "Invalid move format: " followed by the token; otherwise a move that is not
  legal gives "Illegal move: " followed by the token. The response is an error
  exactly when one of the four conditions holds, and the four messages differ
  from one another whatever the tokens are.
\<close>

lemma make_move_checks_in_order:
  assumes "\<not> lock_held s"
  shows "(board_is_game_over e (board s) \<longrightarrow>
            fst (make_move e move_uci s) = Some (Error ''Game is over'')) \<and>
         (\<not> board_is_game_over e (board s) \<and> (move_uci = None \<or> move_uci = Some []) \<longrightarrow>
            fst (make_move e move_uci s) = Some (Error ''Move not provided'')) \<and>
         (\<not> board_is_game_over e (board s) \<and> move_uci = Some tok \<and> tok \<noteq> [] \<and>
          move_from_uci e tok = None \<longrightarrow>
            fst (make_move e move_uci s) = Some (Error (''Invalid move format: '' @ tok))) \<and>
         (\<not> board_is_game_over e (board s) \<and> move_uci = Some tok \<and> tok \<noteq> [] \<and>
          move_from_uci e tok = Some m \<and> \<not> board_legal e (board s) m \<longrightarrow>
            fst (make_move e move_uci s) = Some (Error (''Illegal move: '' @ tok))) \<and>
         ((\<exists>msg. fst (make_move e move_uci s) = Some (Error msg)) \<longleftrightarrow>
            fails_precondition e (board s) move_uci) \<and>
         distinct [''Game is over'', ''Move not provided'',
                   ''Invalid move format: '' @ t1, ''Illegal move: '' @ t2]"
proof -
  have a: "acquire s = Some (s\<lparr>lock_held := True\<rparr>)"
    using assms by (rule acquire_free)
  have c1: "board_is_game_over e (board s) \<longrightarrow>
            fst (make_move e move_uci s) = Some (Error ''Game is over'')"
    by (simp add: make_move_def a)
  have c2: "\<not> board_is_game_over e (board s) \<and> (move_uci = None \<or> move_uci = Some []) \<longrightarrow>
            fst (make_move e move_uci s) = Some (Error ''Move not provided'')"
    by (auto simp add: make_move_def a)
  have c3: "\<not> board_is_game_over e (board s) \<and> move_uci = Some tok \<and> tok \<noteq> [] \<and>
          move_from_uci e tok = None \<longrightarrow>
            fst (make_move e move_uci s) = Some (Error (''Invalid move format: '' @ tok))"
    by (simp add: make_move_def a)
  have c4: "\<not> board_is_game_over e (board s) \<and> move_uci = Some tok \<and> tok \<noteq> [] \<and>
          move_from_uci e tok = Some m \<and> \<not> board_legal e (board s) m \<longrightarrow>
            fst (make_move e move_uci s) = Some (Error (''Illegal move: '' @ tok))"
    by (simp add: make_move_def a)
  have c6: "distinct [''Game is over'', ''Move not provided'',
                   ''Invalid move format: '' @ t1, ''Illegal move: '' @ t2]"
    by simp
  from c1 c2 c3 c4 make_move_error_iff [OF assms] c6 show ?thesis
    by blast
qed

lemma make_move_checks_in_order_example:
  "fst (make_move duel_engine (Some ''zz99'') duel_finished) = Some (Error ''Game is over'') \<and>
   fst (make_move duel_engine None duel_contact) = Some (Error ''Move not provided'') \<and>
   fst (make_move duel_engine (Some ''zz99'') duel_contact) =
     Some (Error ''Invalid move format: zz99'') \<and>
   fst (make_move duel_engine (Some ''x'') (startup duel_engine)) =
     Some (Error ''Illegal move: x'') \<and>
   \<not> fails_precondition duel_engine (board duel_contact) (Some ''x'') \<and>
   fst (make_move duel_engine (Some ''x'') duel_contact) = None"
proof -
  have f1: "\<not> lock_held duel_finished"
    by (simp add: duel_finished_def)
  have f2: "\<not> lock_held duel_contact"
    by (simp add: duel_contact_def)
  have f3: "\<not> lock_held (startup duel_engine)"
    by (simp add: startup_def)
  have over: "board_is_game_over duel_engine (board duel_finished)"
    by (simp add: duel_finished_def duel_engine_def duel_over_def)
  have playing: "\<not> board_is_game_over duel_engine (board duel_contact)"
    by (simp add: duel_contact_def duel_engine_def duel_over_def)
  have playing': "\<not> board_is_game_over duel_engine (board (startup duel_engine))"
    by (simp add: startup_def duel_engine_def duel_start_def duel_over_def)
  have bad: "move_from_uci duel_engine ''zz99'' = None"
    by (simp add: duel_engine_def duel_from_uci_def)
  have take: "move_from_uci duel_engine ''x'' = Some Take"
    by (simp add: duel_engine_def duel_from_uci_def)
  have illegal: "\<not> board_legal duel_engine (board (startup duel_engine)) Take"
    by (simp add: startup_def duel_engine_def duel_start_def)
  have ok: "\<not> fails_precondition duel_engine (board duel_contact) (Some ''x'')"
    by (simp add: fails_precondition_def duel_contact_def duel_engine_def duel_over_def
          duel_from_uci_def)
  from make_move_checks_in_order [OF f1, of duel_engine "Some ''zz99''"] over
  have r1: "fst (make_move duel_engine (Some ''zz99'') duel_finished) =
              Some (Error ''Game is over'')"
    by blast
  from make_move_checks_in_order [OF f2, of duel_engine None] playing
  have r2: "fst (make_move duel_engine None duel_contact) = Some (Error ''Move not provided'')"
    by blast
  from make_move_checks_in_order [OF f2, of duel_engine "Some ''zz99''" "''zz99''"] playing bad
  have r3: "fst (make_move duel_engine (Some ''zz99'') duel_contact) =
              Some (Error ''Invalid move format: zz99'')"
    by simp
  from make_move_checks_in_order [OF f3, of duel_engine "Some ''x''" "''x''" Take]
    playing' take illegal
  have r4: "fst (make_move duel_engine (Some ''x'') (startup duel_engine)) =
              Some (Error ''Illegal move: x'')"
    by simp
  from make_move_checks_in_order [OF f2, of duel_engine "Some ''x''"] ok
  have r5: "fst (make_move duel_engine (Some ''x'') duel_contact) \<noteq> Some (Error msg)" for msg
    by blast
  have "fst (make_move duel_engine (Some ''x'') duel_contact) \<noteq> Some (Snapshot f g h)"
    for f g h
    by (simp add: make_move_def acquire_def get_game_state_def duel_contact_def duel_engine_def
          duel_over_def duel_from_uci_def)
  with r5 have r6: "fst (make_move duel_engine (Some ''x'') duel_contact) \<noteq> Some r" for r
    by (cases r) simp_all
  then have r7: "fst (make_move duel_engine (Some ''x'') duel_contact) = None"
    by (cases "fst (make_move duel_engine (Some ''x'') duel_contact)") auto
  from r1 r2 r3 r4 ok r7 show ?thesis
    by simp
qed

text \<open>
  C4. The checks decide the response only for a call that finds the lock free.
  An accepted move leaves the lock held (line 95), so the request after it gets
  no error when one of the four conditions holds, whichever it is: a game-over
  board, an absent or empty token, a token that does not parse, or a move that
  is not legal. It gets no response at all.
\<close>

theorem failed_check_after_accepted_move_no_error:
  assumes "\<not> lock_held s" and "\<not> board_is_game_over e (board s)"
    and "tok \<noteq> []" and "move_from_uci e tok = Some m" and "board_legal e (board s) m"
    and "fails_precondition e (board (snd (make_move e (Some tok) s))) move_uci"
  shows "fst (make_move e move_uci (snd (make_move e (Some tok) s))) = None \<and>
         fst (make_move e move_uci (snd (make_move e (Some tok) s))) \<noteq> Some (Error msg)"
proof -
  have "lock_held (snd (make_move e (Some tok) s))"
    by (simp add: make_move_legal [OF assms(1-5)])
  then have "make_move e move_uci (snd (make_move e (Some tok) s)) =
               (None, snd (make_move e (Some tok) s))"
    by (rule make_move_held)
  then show ?thesis
    by simp
qed

theorem failed_check_after_accepted_move_no_error_witness:
  "move_from_uci duel_engine ''zz99'' = None \<and>
   fails_precondition duel_engine
     (board (snd (make_move duel_engine (Some ''a'') (startup duel_engine)))) (Some ''zz99'') \<and>
   fst (make_move duel_engine (Some ''zz99'')
          (snd (make_move duel_engine (Some ''a'') (startup duel_engine)))) = None \<and>
   fst (make_move duel_engine (Some ''zz99'')
          (snd (make_move duel_engine (Some ''a'') (startup duel_engine)))) \<noteq>
     Some (Error ''Invalid move format: zz99'')"
proof -
  have h1: "\<not> lock_held (startup duel_engine)"
    by (simp add: startup_def)
  have h2: "\<not> board_is_game_over duel_engine (board (startup duel_engine))"
    by (simp add: startup_def duel_engine_def duel_start_def duel_over_def)
  have h3: "''a'' \<noteq> []"
    by simp
  have h4: "move_from_uci duel_engine ''a'' = Some Advance"
    by (simp add: duel_engine_def duel_from_uci_def)
  have h5: "board_legal duel_engine (board (startup duel_engine)) Advance"
    by (simp add: startup_def duel_engine_def duel_start_def duel_over_def)
  have bad: "move_from_uci duel_engine ''zz99'' = None"
    by (simp add: duel_engine_def duel_from_uci_def)
  then have h6: "fails_precondition duel_engine
              (board (snd (make_move duel_engine (Some ''a'') (startup duel_engine))))
              (Some ''zz99'')"
    by (simp add: fails_precondition_def)
  from failed_check_after_accepted_move_no_error
         [OF h1 h2 h3 h4 h5 h6, of "''Invalid move format: zz99''"] bad h6
  show ?thesis
    by blast
qed

lemma make_move_error_state:
  assumes "fst (make_move e move_uci s) = Some (Error msg)"
  shows "snd (make_move e move_uci s) = s"
proof (cases "lock_held s")
  case True
  then show ?thesis by (simp add: make_move_held)
next
  case False
  from assms make_move_error_iff [OF False, of e move_uci]
  have "fails_precondition e (board s) move_uci" by blast
  then show ?thesis by (rule make_move_refused)
qed

text \<open>
  C5. A move request that fails one of the four preconditions, a game-over
  position among them, leaves the whole state as it was: board, moves_left, and
  the lock free again if it was free. The same holds of every request that is
  answered with an error.
\<close>

theorem make_move_failure_keeps_state:
  "(fails_precondition e (board s) move_uci \<longrightarrow> snd (make_move e move_uci s) = s) \<and>
   (fst (make_move e move_uci s) = Some (Error msg) \<longrightarrow> snd (make_move e move_uci s) = s)"
  using make_move_refused [of e s move_uci] make_move_error_state [of e move_uci s msg]
  by blast

theorem make_move_failure_keeps_state_witness:
  "fails_precondition duel_engine (board duel_finished) (Some ''a'') \<and>
   fst (make_move duel_engine (Some ''a'') duel_finished) = Some (Error ''Game is over'') \<and>
   snd (make_move duel_engine (Some ''a'') duel_finished) = duel_finished \<and>
   fails_precondition duel_engine (board (startup duel_engine)) (Some ''x'') \<and>
   snd (make_move duel_engine (Some ''x'') (startup duel_engine)) = startup duel_engine"
proof -
  have h1: "fails_precondition duel_engine (board duel_finished) (Some ''a'')"
    by (simp add: fails_precondition_def duel_finished_def duel_engine_def duel_over_def)
  have h2: "fst (make_move duel_engine (Some ''a'') duel_finished) = Some (Error ''Game is over'')"
    by (simp add: make_move_def acquire_def duel_finished_def duel_engine_def duel_over_def)
  have h3: "fails_precondition duel_engine (board (startup duel_engine)) (Some ''x'')"
    by (simp add: fails_precondition_def startup_def duel_engine_def duel_start_def
          duel_over_def duel_from_uci_def)
  from make_move_failure_keeps_state [of duel_engine duel_finished "Some ''a''" "''Game is over''"]
    h1 h2
  have r1: "snd (make_move duel_engine (Some ''a'') duel_finished) = duel_finished"
    by blast
  from make_move_failure_keeps_state [of duel_engine "startup duel_engine" "Some ''x''"] h3
  have r2: "snd (make_move duel_engine (Some ''x'') (startup duel_engine)) = startup duel_engine"
    by blast
  from h1 h2 h3 r1 r2 show ?thesis
    by simp
qed

subsection \<open>After an accepted move\<close>

lemma perform_held: "lock_held s \<Longrightarrow> perform e op s = (None, s)"
  by (cases op) (simp_all add: get_game_state_held new_game_held make_move_held)

text \<open>
  C6. From a free lock new_game answers with the starting snapshot
  (lemma \<open>new_game_free\<close>). After an accepted move the lock is still held, so
  new_game gets no further than the entry of initialize_game: it gives no
  snapshot, and the board stays the one the move left, not the starting one.
\<close>

theorem new_game_after_accepted_move:
  assumes "\<not> lock_held s" and "\<not> board_is_game_over e (board s)"
    and "tok \<noteq> []" and "move_from_uci e tok = Some m" and "board_legal e (board s) m"
  shows "fst (new_game e (snd (make_move e (Some tok) s))) = None \<and>
         board (snd (new_game e (snd (make_move e (Some tok) s)))) = board_push e (board s) m \<and>
         board (run e [ApplyMove (Some tok), NewGame] s) = board_push e (board s) m"
  by (simp add: make_move_legal [OF assms] new_game_held)

theorem new_game_after_accepted_move_witness:
  "fst (new_game duel_engine (snd (make_move duel_engine (Some ''a'') (startup duel_engine)))) = None \<and>
   board (run duel_engine [ApplyMove (Some ''a''), NewGame] (startup duel_engine)) =
     \<lparr>white_to_move = False, white_men = 2, black_men = 2, contact = True\<rparr> \<and>
   board (run duel_engine [ApplyMove (Some ''a''), NewGame] (startup duel_engine)) \<noteq>
     chess_Board duel_engine"
proof -
  have h1: "\<not> lock_held (startup duel_engine)"
    by (simp add: startup_def)
  have h2: "\<not> board_is_game_over duel_engine (board (startup duel_engine))"
    by (simp add: startup_def duel_engine_def duel_start_def duel_over_def)
  have h3: "''a'' \<noteq> []"
    by simp
  have h4: "move_from_uci duel_engine ''a'' = Some Advance"
    by (simp add: duel_engine_def duel_from_uci_def)
  have h5: "board_legal duel_engine (board (startup duel_engine)) Advance"
    by (simp add: startup_def duel_engine_def duel_start_def duel_over_def)
  have pushed: "board_push duel_engine (board (startup duel_engine)) Advance =
                  \<lparr>white_to_move = False, white_men = 2, black_men = 2, contact = True\<rparr>"
    by (simp add: startup_def duel_engine_def duel_start_def)
  have start: "chess_Board duel_engine =
                 \<lparr>white_to_move = True, white_men = 2, black_men = 2, contact = False\<rparr>"
    by (simp add: duel_engine_def duel_start_def)
  from new_game_after_accepted_move [OF h1 h2 h3 h4 h5]
  have r: "fst (new_game duel_engine
                 (snd (make_move duel_engine (Some ''a'') (startup duel_engine)))) = None \<and>
           board (run duel_engine [ApplyMove (Some ''a''), NewGame] (startup duel_engine)) =
             board_push duel_engine (board (startup duel_engine)) Advance"
    by blast
  show ?thesis
    unfolding start using r pushed by simp
qed

subsection \<open>The status message and the snapshot\<close>

lemma char_of_49: "char_of (49::nat) = CHR ''1''"
  by code_simp

lemma char_of_50: "char_of (50::nat) = CHR ''2''"
  by code_simp

lemma digits_1: "digits (Suc 0) = ''1''"
  by (subst digits.simps) (simp add: char_of_49)

lemma digits_2: "digits 2 = ''2''"
  by (subst digits.simps) (simp add: char_of_50)

lemma str_int_1: "str_int 1 = ''1''"
  by (simp add: str_int_def digits_1)

lemma str_int_2: "str_int 2 = ''2''"
  by (simp add: str_int_def digits_2)

text \<open>
  C7. The status message depends on the board and on moves_left only. When the
  game is over it is the white-win, black-win or draw string for the results
  "1-0", "0-1" and "1/2-1/2", and "Game Over! " followed by the result for any
  other result. Otherwise it names the side to move and the moves left, with
  "move" exactly when one move is left and "moves" otherwise; for the two values
  moves_left takes it reads "(1 move left)" and "(2 moves left)".
\<close>

theorem get_status_message_cases:
  "(board_is_game_over e (board s) \<and> board_result e (board s) = ''1-0'' \<longrightarrow>
      get_status_message e s = ''Game Over: White wins!'') \<and>
   (board_is_game_over e (board s) \<and> board_result e (board s) = ''0-1'' \<longrightarrow>
      get_status_message e s = ''Game Over: Black wins!'') \<and>
   (board_is_game_over e (board s) \<and> board_result e (board s) = ''1/2-1/2'' \<longrightarrow>
      get_status_message e s = ''Game Over: Draw!'') \<and>
   (board_is_game_over e (board s) \<and>
    board_result e (board s) \<notin> {''1-0'', ''0-1'', ''1/2-1/2''} \<longrightarrow>
      get_status_message e s = ''Game Over! '' @ board_result e (board s)) \<and>
   (\<not> board_is_game_over e (board s) \<longrightarrow>
      get_status_message e s =
        (if board_turn e (board s) = WHITE then ''White'' else ''Black'') @ '' to move (''
        @ str_int (moves_left s)
        @ (if moves_left s = 1 then '' move left)'' else '' moves left)'')) \<and>
   (\<not> board_is_game_over e (board s) \<and> moves_left s = 1 \<longrightarrow>
      get_status_message e s =
        (if board_turn e (board s) = WHITE then ''White'' else ''Black'')
        @ '' to move (1 move left)'') \<and>
   (\<not> board_is_game_over e (board s) \<and> moves_left s = 2 \<longrightarrow>
      get_status_message e s =
        (if board_turn e (board s) = WHITE then ''White'' else ''Black'')
        @ '' to move (2 moves left)'') \<and>
   (board s' = board s \<and> moves_left s' = moves_left s \<longrightarrow>
      get_status_message e s' = get_status_message e s)"
proof -
  have over: "board_is_game_over e (board s) \<Longrightarrow>
      get_status_message e s =
        (if board_result e (board s) = ''1-0'' then ''Game Over: White wins!''
         else if board_result e (board s) = ''0-1'' then ''Game Over: Black wins!''
         else if board_result e (board s) = ''1/2-1/2'' then ''Game Over: Draw!''
         else ''Game Over! '' @ board_result e (board s))"
    by (simp add: get_status_message_def Let_def)
  have playing: "\<not> board_is_game_over e (board s) \<Longrightarrow>
      get_status_message e s =
        (if board_turn e (board s) = WHITE then ''White'' else ''Black'') @ '' to move (''
        @ str_int (moves_left s)
        @ (if moves_left s = 1 then '' move left)'' else '' moves left)'')"
    by (simp add: get_status_message_def Let_def)
  have same: "board s' = board s \<and> moves_left s' = moves_left s \<longrightarrow>
      get_status_message e s' = get_status_message e s"
    by (simp add: get_status_message_def Let_def)
  from over have c1: "board_is_game_over e (board s) \<and> board_result e (board s) = ''1-0'' \<longrightarrow>
      get_status_message e s = ''Game Over: White wins!''"
    by simp
  from over have c2: "board_is_game_over e (board s) \<and> board_result e (board s) = ''0-1'' \<longrightarrow>
      get_status_message e s = ''Game Over: Black wins!''"
    by simp
  from over have c3: "board_is_game_over e (board s) \<and> board_result e (board s) = ''1/2-1/2'' \<longrightarrow>
      get_status_message e s = ''Game Over: Draw!''"
    by simp
  from over have c4: "board_is_game_over e (board s) \<and>
    board_result e (board s) \<notin> {''1-0'', ''0-1'', ''1/2-1/2''} \<longrightarrow>
      get_status_message e s = ''Game Over! '' @ board_result e (board s)"
    by simp
  from playing have c6: "\<not> board_is_game_over e (board s) \<and> moves_left s = 1 \<longrightarrow>
      get_status_message e s =
        (if board_turn e (board s) = WHITE then ''White'' else ''Black'')
        @ '' to move (1 move left)''"
    by (simp add: str_int_1)
  from playing have c7: "\<not> board_is_game_over e (board s) \<and> moves_left s = 2 \<longrightarrow>
      get_status_message e s =
        (if board_turn e (board s) = WHITE then ''White'' else ''Black'')
        @ '' to move (2 moves left)''"
    by (simp add: str_int_2)
  from c1 c2 c3 c4 playing c6 c7 same show ?thesis
    by blast
qed

theorem get_status_message_cases_witness:
  "get_status_message duel_engine duel_finished = ''Game Over: White wins!'' \<and>
   get_status_message duel_engine duel_contact = ''White to move (1 move left)'' \<and>
   get_status_message duel_engine duel_bonus = ''Black to move (2 moves left)'' \<and>
   get_status_message duel_engine (duel_bonus\<lparr>lock_held := True\<rparr>) =
     ''Black to move (2 moves left)''"
proof -
  have h1: "board_is_game_over duel_engine (board duel_finished) \<and>
            board_result duel_engine (board duel_finished) = ''1-0''"
    by (simp add: duel_finished_def duel_engine_def duel_over_def duel_result_def)
  have h2: "\<not> board_is_game_over duel_engine (board duel_contact) \<and> moves_left duel_contact = 1"
    by (simp add: duel_contact_def duel_engine_def duel_over_def)
  have h3: "\<not> board_is_game_over duel_engine (board duel_bonus) \<and> moves_left duel_bonus = 2"
    by (simp add: duel_bonus_def duel_engine_def duel_over_def)
  have h4: "board (duel_bonus\<lparr>lock_held := True\<rparr>) = board duel_bonus \<and>
            moves_left (duel_bonus\<lparr>lock_held := True\<rparr>) = moves_left duel_bonus"
    by simp
  have t2: "board_turn duel_engine (board duel_contact) = WHITE"
    by (simp add: duel_contact_def duel_engine_def WHITE_def)
  have t3: "board_turn duel_engine (board duel_bonus) \<noteq> WHITE"
    by (simp add: duel_bonus_def duel_engine_def WHITE_def)
  from get_status_message_cases [of duel_engine duel_finished] h1
  have r1: "get_status_message duel_engine duel_finished = ''Game Over: White wins!''"
    by blast
  from get_status_message_cases [of duel_engine duel_contact] h2
  have "get_status_message duel_engine duel_contact =
          (if board_turn duel_engine (board duel_contact) = WHITE then ''White'' else ''Black'')
          @ '' to move (1 move left)''"
    by blast
  with t2 have r2: "get_status_message duel_engine duel_contact = ''White to move (1 move left)''"
    by simp
  from get_status_message_cases [of duel_engine duel_bonus] h3
  have "get_status_message duel_engine duel_bonus =
          (if board_turn duel_engine (board duel_bonus) = WHITE then ''White'' else ''Black'')
          @ '' to move (2 moves left)''"
    by blast
  with t3 have r3: "get_status_message duel_engine duel_bonus = ''Black to move (2 moves left)''"
    by simp
  from get_status_message_cases [of duel_engine duel_bonus "duel_bonus\<lparr>lock_held := True\<rparr>"] h4
  have "get_status_message duel_engine (duel_bonus\<lparr>lock_held := True\<rparr>) =
          get_status_message duel_engine duel_bonus"
    by blast
  with r1 r2 r3 show ?thesis
    by simp
qed

text \<open>
  C8. get_game_state changes nothing: the state after it is the state before,
  the lock included. Its snapshot holds the engine's serialisation of the
  current board, whether that board is game-over, and the status message of the
  current state; the status message reads the board and moves_left only.
\<close>

theorem get_game_state_reads_only:
  "snd (get_game_state e s) = s \<and>
   (\<not> lock_held s \<longrightarrow>
      fst (get_game_state e s) =
        Some (Snapshot (board_fen e (board s)) (board_is_game_over e (board s))
                (get_status_message e s)))"
  by (simp add: get_game_state_state get_game_state_free)

theorem get_game_state_reads_only_witness:
  "\<not> lock_held duel_contact \<and>
   snd (get_game_state duel_engine duel_contact) = duel_contact \<and>
   fst (get_game_state duel_engine duel_contact) =
     Some (Snapshot ''2/2 w'' False ''White to move (1 move left)'')"
proof -
  have h: "\<not> lock_held duel_contact"
    by (simp add: duel_contact_def)
  have f: "board_fen duel_engine (board duel_contact) = ''2/2 w''"
    by (simp add: duel_engine_def duel_contact_def duel_fen_def digits_2)
  have g: "\<not> board_is_game_over duel_engine (board duel_contact)"
    by (simp add: duel_engine_def duel_contact_def duel_over_def)
  have m: "get_status_message duel_engine duel_contact = ''White to move (1 move left)''"
    by (simp add: get_status_message_def duel_engine_def duel_contact_def duel_over_def
          WHITE_def str_int_1)
  from get_game_state_reads_only [of duel_engine duel_contact] h f g m show ?thesis
    by simp
qed

subsection \<open>The allowance over whole runs\<close>

text \<open>
  C9. After any sequence of requests from the state the module starts in,
  moves_left is 1 or 2: it starts at 1, a refused or waiting request leaves it,
  new_game sets it to 1, and an accepted move takes 1 to 1 or 2 and 2 to 1.
\<close>

theorem moves_left_one_or_two:
  "moves_left (run e ops (startup e)) = 1 \<or> moves_left (run e ops (startup e)) = 2"
proof -
  have "moves_left (startup e) = 1 \<or> moves_left (startup e) = 2"
    by (simp add: startup_def)
  then show ?thesis
    by (rule run_allowance)
qed

theorem moves_left_one_or_two_witness:
  "moves_left (run duel_engine [NewGame, ApplyMove (Some ''a''), GetState]
                 (startup duel_engine)) = 1"
proof -
  have "moves_left (run duel_engine [NewGame, ApplyMove (Some ''a''), GetState]
                      (startup duel_engine)) \<noteq> 2"
    by (simp add: startup_def duel_engine_def duel_start_def duel_over_def duel_from_uci_def
          get_game_state_def new_game_def initialize_game_def make_move_def
          acquire_def release_def)
  with moves_left_one_or_two [of duel_engine "[NewGame, ApplyMove (Some ''a''), GetState]"]
  show ?thesis
    by blast
qed

subsection \<open>The lock after an accepted move\<close>

text \<open>
  C10. make_move holds game_lock when it calls get_game_state, which takes the
  same lock again. For a move that passes the four checks the call therefore
  gives no response, the lock stays held, and every request that follows
  (get_game_state, new_game, make_move) gives no response either and leaves the
  state as it is. new_game, by contrast, calls get_game_state after
  initialize_game has released the lock (lemma \<open>new_game_free\<close>).
\<close>

theorem make_move_accepted_never_returns:
  assumes "\<not> lock_held s" and "\<not> board_is_game_over e (board s)"
    and "tok \<noteq> []" and "move_from_uci e tok = Some m" and "board_legal e (board s) m"
  shows "fst (make_move e (Some tok) s) = None \<and>
         lock_held (snd (make_move e (Some tok) s)) \<and>
         perform e op (snd (make_move e (Some tok) s)) = (None, snd (make_move e (Some tok) s))"
proof -
  have held: "lock_held (snd (make_move e (Some tok) s))"
    by (simp add: make_move_legal [OF assms])
  have "fst (make_move e (Some tok) s) = None"
    by (simp add: make_move_legal [OF assms])
  with held perform_held [OF held, of e op] show ?thesis
    by simp
qed

theorem make_move_accepted_never_returns_witness:
  "board_legal duel_engine (board (startup duel_engine)) Advance \<and>
   fst (make_move duel_engine (Some ''a'') (startup duel_engine)) = None \<and>
   lock_held (snd (make_move duel_engine (Some ''a'') (startup duel_engine))) \<and>
   fst (perform duel_engine GetState
          (snd (make_move duel_engine (Some ''a'') (startup duel_engine)))) = None"
proof -
  have h1: "\<not> lock_held (startup duel_engine)"
    by (simp add: startup_def)
  have h2: "\<not> board_is_game_over duel_engine (board (startup duel_engine))"
    by (simp add: startup_def duel_engine_def duel_start_def duel_over_def)
  have h3: "''a'' \<noteq> []"
    by simp
  have h4: "move_from_uci duel_engine ''a'' = Some Advance"
    by (simp add: duel_engine_def duel_from_uci_def)
  have h5: "board_legal duel_engine (board (startup duel_engine)) Advance"
    by (simp add: startup_def duel_engine_def duel_start_def duel_over_def)
  from make_move_accepted_never_returns [OF h1 h2 h3 h4 h5, of GetState] h5 show ?thesis
    by simp
qed

end
